theory Spec2Isabelle
  imports Complex_Main "HOL-Library.Log_Nat"
begin

section \<open>The items store of \<^verbatim>\<open>vue-store-sample.ts\<close>\<close>

subsection \<open>Data\<close>

text \<open>
  A JavaScript \<^verbatim>\<open>number\<close>. The finite values are carried as rationals; every value the
  store computes is a binary64 value, obtained through the rounding \<open>fl\<close> below.
\<close>

datatype number = Num rat | Infinity | NaN

text \<open>
  \<^verbatim>\<open>IItem\<close>, \<^verbatim>\<open>IItemModified\<close> and \<^verbatim>\<open>IProgress\<close> are declared in \<^verbatim>\<open>@/types\<close>, which is
  not part of the source; their fields are the ones the store reads and writes. Of a
  raw item the store reads \<^verbatim>\<open>itemId\<close> (an integer, compared with \<^verbatim>\<open>===\<close>),
  \<^verbatim>\<open>topicKey\<close> and \<^verbatim>\<open>topicTitle\<close>; whatever else it carries is the field \<open>display\<close>, of
  any type. \<^verbatim>\<open>null\<close> is \<open>None\<close>. The fields \<^verbatim>\<open>topicKey\<close> and \<^verbatim>\<open>topicTitle\<close> of a progress
  entry are \<open>pTopicKey\<close> and \<open>pTopicTitle\<close>; an \<^verbatim>\<open>undefined\<close> title or width is \<open>None\<close>.
\<close>

record 'a IItem =
  itemId :: int
  topicKey :: string
  topicTitle :: string
  display :: 'a

record 'a IItemModified = "'a IItem" +
  score :: "number option"
  comment :: "string option"
  fulfilled :: bool

record IProgress =
  pTopicKey :: string
  pTopicTitle :: "string option"
  widthPercentage :: "number option"
  progressPercent :: number

subsection \<open>The store\<close>

text \<open>
  Arrays are objects: \<open>heap\<close> maps the address of an array to its elements, and
  \<open>nextAddr\<close> is the first address not yet handed out. \<open>modifiedItems\<close> is the array the
  ref \<^verbatim>\<open>modifiedItems\<close> holds, \<open>selectedItemIndex\<close> the ref of that name.
  The item objects of an array are made by \<^verbatim>\<open>setCopyOfItems\<close>, one fresh object per
  element, so no two positions share an object and the elements are kept as values.

  \<open>summaryCalls\<close> is the trace of the calls \<^verbatim>\<open>summaryStore.initSummaryStore(arg)\<close>: one
  entry per call, the address of the array passed.

  The heading refs (\<^verbatim>\<open>topicHeadingsRefs\<close>, \<^verbatim>\<open>itemHeadingsRefs\<close> and their setters) and
  the grouping for rendering (\<^verbatim>\<open>itemsByTopics\<close>, \<^verbatim>\<open>isItemsTopicExpanded\<close>) are left out:
  they write to refs of their own and never to the registry.
\<close>

type_synonym addr = nat

record 'a ItemsStore =
  heap :: "addr \<Rightarrow> 'a IItemModified list"
  nextAddr :: addr
  modifiedItems :: addr
  selectedItemIndex :: "int option"
  summaryCalls :: "addr list"

datatype error = TypeError

text \<open>
  The outcome of a method: it returns, or an exception leaves it. Both carry the store
  as it is at that moment, since a method may have written to a ref before it throws.
\<close>

datatype 'a result = Ok 'a | Throw error 'a

text \<open>\<^verbatim>\<open>modifiedItems.value\<close>, read.\<close>

definition modifiedItems_value :: "'a ItemsStore \<Rightarrow> 'a IItemModified list" where
  "modifiedItems_value s = heap s (modifiedItems s)"

text \<open>The store as \<^verbatim>\<open>defineStore\<close> sets it up: an empty array, no selected index.\<close>

definition useItemsStore :: "'a ItemsStore" where
  "useItemsStore =
     \<lparr>heap = (\<lambda>_. []), nextAddr = 1, modifiedItems = 0,
      selectedItemIndex = None, summaryCalls = []\<rparr>"

subsection \<open>Array primitives\<close>

text \<open>\<^verbatim>\<open>Array.prototype.findIndex\<close>: the first index whose element passes, else \<open>-1\<close>.\<close>

fun findIndexFrom :: "('b \<Rightarrow> bool) \<Rightarrow> 'b list \<Rightarrow> int \<Rightarrow> int" where
  "findIndexFrom P [] k = - 1"
| "findIndexFrom P (x # xs) k = (if P x then k else findIndexFrom P xs (k + 1))"

definition findIndex :: "('b \<Rightarrow> bool) \<Rightarrow> 'b list \<Rightarrow> int" where
  "findIndex P xs = findIndexFrom P xs 0"

text \<open>
  \<^verbatim>\<open>arr[i]\<close> for an index of type \<^verbatim>\<open>number | null\<close>: the element, or \<^verbatim>\<open>undefined\<close>
  (\<open>None\<close>) when \<open>i\<close> is \<^verbatim>\<open>null\<close>, negative or past the end.
\<close>

definition elemAt :: "'b list \<Rightarrow> int option \<Rightarrow> 'b option" where
  "elemAt xs i =
     (case i of
        None \<Rightarrow> None
      | Some j \<Rightarrow> if 0 \<le> j \<and> j < int (length xs) then Some (xs ! nat j) else None)"

text \<open>The object at \<^verbatim>\<open>arr[i]\<close> after a write to one of its fields made it \<open>v\<close>.\<close>

definition elemPut :: "'b list \<Rightarrow> int option \<Rightarrow> 'b \<Rightarrow> 'b list" where
  "elemPut xs i v =
     (case i of
        None \<Rightarrow> xs
      | Some j \<Rightarrow> if 0 \<le> j \<and> j < int (length xs) then xs[nat j := v] else xs)"

text \<open>
  \<^verbatim>\<open>[...new Set(xs)]\<close>: a Set keeps its elements in insertion order and ignores the
  insertion of an element it already has.
\<close>

definition setAdd :: "'b list \<Rightarrow> 'b \<Rightarrow> 'b list" where
  "setAdd acc x = (if x \<in> set acc then acc else acc @ [x])"

definition newSet :: "'b list \<Rightarrow> 'b list" where
  "newSet xs = foldl setAdd [] xs"

subsection \<open>Loading and resetting\<close>

text \<open>
  Modelled from the spec: \<^verbatim>\<open>initSummaryStore\<close> belongs to \<^verbatim>\<open>useSummaryStore\<close>, which is
  not part of the source. It receives a view of the list and does not write to it; the
  call is recorded in the trace.
\<close>

definition initSummaryStore :: "addr \<Rightarrow> 'a ItemsStore \<Rightarrow> 'a ItemsStore" where
  "initSummaryStore arg s = s\<lparr>summaryCalls := summaryCalls s @ [arg]\<rparr>"

text \<open>The object literal \<^verbatim>\<open>{...item, score: null, comment: null, fulfilled: true}\<close>.\<close>

definition modified :: "'a IItem \<Rightarrow> 'a IItemModified" where
  "modified item =
     \<lparr>itemId = itemId item, topicKey = topicKey item, topicTitle = topicTitle item,
      display = display item, score = None, comment = None, fulfilled = True\<rparr>"

text \<open>\<^verbatim>\<open>payload.map\<close> builds a new array; the ref is set to it; the ref's value is passed on.\<close>

definition setCopyOfItems :: "'a IItem list \<Rightarrow> 'a ItemsStore \<Rightarrow> 'a ItemsStore" where
  "setCopyOfItems payload s =
     (let a = nextAddr s;
          s1 = s\<lparr>heap := (heap s)(a := map modified payload), nextAddr := Suc a,
                 modifiedItems := a\<rparr>
      in initSummaryStore (modifiedItems s1) s1)"

definition resetStore :: "'a ItemsStore \<Rightarrow> 'a ItemsStore" where
  "resetStore s =
     (let a = nextAddr s
      in s\<lparr>heap := (heap s)(a := []), nextAddr := Suc a, modifiedItems := a\<rparr>)"

subsection \<open>Mutations\<close>

definition findIndexOfItem :: "int \<Rightarrow> 'a ItemsStore \<Rightarrow> 'a ItemsStore" where
  "findIndexOfItem index s =
     s\<lparr>selectedItemIndex :=
         Some (findIndex (\<lambda>item. itemId item = index) (modifiedItems_value s))\<rparr>"

text \<open>Writing \<open>v\<close> in place of the object at the selected index of the current array.\<close>

definition writeSelected :: "'a IItemModified \<Rightarrow> 'a ItemsStore \<Rightarrow> 'a ItemsStore" where
  "writeSelected v s =
     s\<lparr>heap := (heap s)(modifiedItems s :=
                  elemPut (modifiedItems_value s) (selectedItemIndex s) v)\<rparr>"

text \<open>
  \<^verbatim>\<open>modifiedItems.value[selectedItemIndex.value].score = score\<close>: assigning to a property
  of \<^verbatim>\<open>undefined\<close> throws a TypeError.
\<close>

definition updateScoreOfItem :: "number \<Rightarrow> int \<Rightarrow> 'a ItemsStore \<Rightarrow> 'a ItemsStore result" where
  "updateScoreOfItem sc iid s =
     (let s1 = findIndexOfItem iid s
      in case elemAt (modifiedItems_value s1) (selectedItemIndex s1) of
           None \<Rightarrow> Throw TypeError s1
         | Some item \<Rightarrow> Ok (writeSelected (item\<lparr>score := Some sc\<rparr>) s1))"

definition updateCommentOfItem :: "string \<Rightarrow> int \<Rightarrow> 'a ItemsStore \<Rightarrow> 'a ItemsStore result" where
  "updateCommentOfItem c iid s =
     (let s1 = findIndexOfItem iid s
      in case elemAt (modifiedItems_value s1) (selectedItemIndex s1) of
           None \<Rightarrow> Throw TypeError s1
         | Some item \<Rightarrow> Ok (writeSelected (item\<lparr>comment := Some c\<rparr>) s1))"

text \<open>The guard \<^verbatim>\<open>if (itemFulfilledState)\<close> skips both writes when the lookup gave \<^verbatim>\<open>undefined\<close>.\<close>

definition changeItemFulfilled :: "int \<Rightarrow> 'a ItemsStore \<Rightarrow> 'a ItemsStore result" where
  "changeItemFulfilled iid s =
     (let s1 = findIndexOfItem iid s
      in case elemAt (modifiedItems_value s1) (selectedItemIndex s1) of
           None \<Rightarrow> Ok s1
         | Some itemFulfilledState \<Rightarrow>
             Ok (writeSelected
                   (itemFulfilledState\<lparr>fulfilled := \<not> fulfilled itemFulfilledState,
                                        score := None\<rparr>) s1))"

subsection \<open>Topics\<close>

definition itemTopicKeys :: "'a ItemsStore \<Rightarrow> string list" where
  "itemTopicKeys s = newSet (map topicKey (modifiedItems_value s))"

text \<open>
  The object built by the \<^verbatim>\<open>reduce\<close>, as the function that reads it: a key bound to
  \<^verbatim>\<open>undefined\<close> and a key not bound both read as \<^verbatim>\<open>undefined\<close>.
\<close>

definition itemTopicTitles :: "'a ItemsStore \<Rightarrow> string \<Rightarrow> string option" where
  "itemTopicTitles s =
     foldl (\<lambda>acc k. acc(k := map_option topicTitle
                                (find (\<lambda>item. topicKey item = k) (modifiedItems_value s))))
       (\<lambda>_. None) (itemTopicKeys s)"

subsection \<open>Counting\<close>

definition getNumberOfItemsPerTopic :: "'a ItemsStore \<Rightarrow> string \<Rightarrow> nat" where
  "getNumberOfItemsPerTopic s k =
     foldl (\<lambda>acc item. if topicKey item = k then acc + 1 else acc) 0 (modifiedItems_value s)"

definition getNumberOfAnsweredItemsPerTopic :: "'a ItemsStore \<Rightarrow> string \<Rightarrow> nat" where
  "getNumberOfAnsweredItemsPerTopic s k =
     foldl (\<lambda>acc item.
              if topicKey item = k \<and> (score item \<noteq> None \<or> fulfilled item = False)
              then acc + 1 else acc)
       0 (modifiedItems_value s)"

subsection \<open>Numbers\<close>

text \<open>
  The arithmetic of \<^verbatim>\<open>getProgressPercent\<close> is binary64 arithmetic: \<^verbatim>\<open>a / b\<close> and
  \<^verbatim>\<open>a * b\<close> are the exact quotient and product, rounded to the nearest binary64 value,
  and of two nearest values the one with the even significand. The rounding is \<open>fl\<close>:
  \<open>rne\<close> rounds a rational to the nearest integer, ties to the even one; \<open>expo x\<close> is
  the exponent \<open>e\<close> of the binade of \<open>x\<close>, \<open>2 powi e \<le> \<bar>x\<bar> < 2 powi (e + 1)\<close>; \<open>fl x\<close>
  keeps 53 significant bits of \<open>x\<close>.

  \<open>fl\<close> leaves out overflow and the subnormal range, so it is the binary64 rounding for
  \<open>2 powi (- 1022) \<le> \<bar>x\<bar> < 2 powi 1024\<close> and for \<open>0\<close>. Every number the store computes is
  there: an array has fewer than \<open>2 ^ 32\<close> elements, so a count is an integer below
  \<open>2 ^ 32\<close>, exact in binary64, and a non-zero quotient of two counts and its
  hundredfold lie between \<open>2 powi (- 32)\<close> and \<open>2 ^ 39\<close>. The infinity of a \<open>number\<close> is the
  positive one; no count is negative.
\<close>

definition rne :: "rat \<Rightarrow> int" where
  "rne x =
     (let n = \<lfloor>x\<rfloor>; f = x - of_int n
      in if f < 1 / 2 then n else if 1 / 2 < f then n + 1 else if even n then n else n + 1)"

definition expo :: "rat \<Rightarrow> int" where
  "expo x =
     (let (p, q) = quotient_of \<bar>x\<bar>; d = bitlen p - bitlen q
      in if 2 powi d \<le> \<bar>x\<bar> then d else d - 1)"

definition fl :: "rat \<Rightarrow> rat" where
  "fl x = (if x = 0 then 0 else let u = 2 powi (expo x - 52) in of_int (rne (x / u)) * u)"

text \<open>
  \<^verbatim>\<open>x.toFixed(2)\<close> for a finite \<open>x\<close> below \<open>10\<^sup>2\<^sup>1\<close>, as the number its digits denote:
  the integer \<open>n\<close> with \<open>n / 100\<close> nearest to the magnitude of \<open>x\<close>, the larger one at a
  tie, with the sign of \<open>x\<close>.
\<close>

definition toFixed2 :: "rat \<Rightarrow> rat" where
  "toFixed2 x =
     (if x < 0 then - (of_int \<lfloor>- x * 100 + 1 / 2\<rfloor> / 100)
      else of_int \<lfloor>x * 100 + 1 / 2\<rfloor> / 100)"

text \<open>
  \<^verbatim>\<open>Number(((value / total) * 100).toFixed(2))\<close> on two counts; \<open>total'\<close> is the
  parameter \<^verbatim>\<open>total\<close>. A zero total does not throw: \<^verbatim>\<open>0 / 0\<close> is \<^verbatim>\<open>NaN\<close> and \<^verbatim>\<open>n / 0\<close>
  is \<^verbatim>\<open>Infinity\<close>, and \<^verbatim>\<open>* 100\<close>, \<^verbatim>\<open>toFixed\<close> and \<^verbatim>\<open>Number\<close> hand both through.
  \<^verbatim>\<open>Number\<close> reads the digits back as the nearest binary64 value.
\<close>

definition getProgressPercent :: "nat \<Rightarrow> nat \<Rightarrow> number" where
  "getProgressPercent value total' =
     (if total' = 0 then (if value = 0 then NaN else Infinity)
      else Num (fl (toFixed2 (fl (fl (of_nat value / of_nat total') * 100)))))"

subsection \<open>Progress\<close>

text \<open>
  \<^verbatim>\<open>getProgress\<close> comes from \<^verbatim>\<open>@/utils/helpers\<close>, which is not part of the source: it is
  a parameter here. \<^verbatim>\<open>progress[index]\<close> is \<^verbatim>\<open>undefined\<close> past the end of what it returns.
\<close>

definition totalProgress :: "(nat \<Rightarrow> number list) \<Rightarrow> 'a ItemsStore \<Rightarrow> IProgress list" where
  "totalProgress getProgress s =
     (let numberOfTopics = length (itemTopicKeys s);
          progress = getProgress numberOfTopics
      in map (\<lambda>(index, k).
                let numberOfItemsPerTopic = getNumberOfItemsPerTopic s k;
                    numberOfAnsweredItemsPerTopic = getNumberOfAnsweredItemsPerTopic s k
                in \<lparr>pTopicKey = k,
                    pTopicTitle = itemTopicTitles s k,
                    widthPercentage = elemAt progress (Some (int index)),
                    progressPercent =
                      getProgressPercent numberOfAnsweredItemsPerTopic numberOfItemsPerTopic\<rparr>)
           (enumerate 0 (itemTopicKeys s)))"


subsection \<open>Example stores\<close>

text \<open>Three items in two topics, loaded into a new store.\<close>

definition examplePayload :: "unit IItem list" where
  "examplePayload =
     [\<lparr>itemId = 1, topicKey = ''A'', topicTitle = ''Topic A'', display = ()\<rparr>,
      \<lparr>itemId = 2, topicKey = ''A'', topicTitle = ''Topic A'', display = ()\<rparr>,
      \<lparr>itemId = 3, topicKey = ''B'', topicTitle = ''Topic B'', display = ()\<rparr>]"

definition exampleStore :: "unit ItemsStore" where
  "exampleStore = setCopyOfItems examplePayload useItemsStore"

text \<open>
  A sequence of calls: the next call runs on the store the previous one left; an
  exception ends the sequence. \<open>storeOf\<close> is the store an outcome carries.
\<close>

fun andThen :: "'s result \<Rightarrow> ('s \<Rightarrow> 's result) \<Rightarrow> 's result" where
  "andThen (Ok s) f = f s"
| "andThen (Throw e s) f = Throw e s"

fun storeOf :: "'s result \<Rightarrow> 's" where
  "storeOf (Ok s) = s"
| "storeOf (Throw e s) = s"

text \<open>
  The example store after \<^verbatim>\<open>updateScoreOfItem(5, 1)\<close>, \<^verbatim>\<open>updateScoreOfItem(3, 2)\<close> and
  \<^verbatim>\<open>changeItemFulfilled(3)\<close>.
\<close>

definition exampleAnswered :: "unit ItemsStore result" where
  "exampleAnswered =
     andThen (andThen (updateScoreOfItem (Num 5) 1 exampleStore) (updateScoreOfItem (Num 3) 2))
       (changeItemFulfilled 3)"




text \<open>An even split of the width, standing for \<^verbatim>\<open>getProgress\<close>.\<close>

definition exampleGetProgress :: "nat \<Rightarrow> number list" where
  "exampleGetProgress n = replicate n (Num (fl (100 / of_nat n)))"

section \<open>Properties\<close>

subsection \<open>Lookup by id\<close>

lemma findIndexFrom_none:
  "\<not> list_ex P xs \<Longrightarrow> findIndexFrom P xs k = - 1"
  by (induction xs arbitrary: k) auto

lemma findIndexFrom_some:
  "list_ex P xs \<Longrightarrow>
     k \<le> findIndexFrom P xs k \<and> findIndexFrom P xs k < k + int (length xs) \<and>
     P (xs ! nat (findIndexFrom P xs k - k)) \<and>
     (\<forall>j < nat (findIndexFrom P xs k - k). \<not> P (xs ! j))"
proof (induction xs arbitrary: k)
  case Nil
  then show ?case by simp
next
  case (Cons x xs)
  show ?case
  proof (cases "P x")
    case True
    then show ?thesis by simp
  next
    case False
    with Cons.prems have ex: "list_ex P xs" by simp
    note ih = Cons.IH [OF ex, of "k + 1"]
    let ?r = "findIndexFrom P xs (k + 1)"
    from ih have r: "k + 1 \<le> ?r" by simp
    then have idx: "nat (?r - k) = Suc (nat (?r - (k + 1)))" by simp
    have "\<forall>j < nat (?r - k). \<not> P ((x # xs) ! j)"
    proof (intro allI impI)
      fix j assume "j < nat (?r - k)"
      with idx ih False show "\<not> P ((x # xs) ! j)"
        by (cases j) auto
    qed
    with False ih r idx show ?thesis by simp
  qed
qed


lemma findIndex_absent:
  "iid \<notin> set (map itemId xs) \<Longrightarrow> findIndex (\<lambda>item. itemId item = iid) xs = - 1"
  unfolding findIndex_def
  by (rule findIndexFrom_none) (auto simp: list_ex_iff)

lemma findIndex_present:
  assumes "iid \<in> set (map itemId xs)"
  shows "\<exists>i. i < length xs \<and> itemId (xs ! i) = iid \<and> (\<forall>j<i. itemId (xs ! j) \<noteq> iid) \<and>
             findIndex (\<lambda>item. itemId item = iid) xs = int i"
proof -
  let ?P = "\<lambda>item. itemId item = iid"
  from assms have ex: "list_ex ?P xs" by (auto simp: list_ex_iff)
  note f = findIndexFrom_some [OF ex, of 0]
  let ?i = "nat (findIndex ?P xs)"
  from f have "?i < length xs" "itemId (xs ! ?i) = iid" "\<forall>j < ?i. itemId (xs ! j) \<noteq> iid"
    "findIndex ?P xs = int ?i"
    by (auto simp: findIndex_def)
  then show ?thesis by blast
qed

lemma value_findIndexOfItem [simp]:
  "modifiedItems_value (findIndexOfItem iid s) = modifiedItems_value s"
  by (simp add: modifiedItems_value_def findIndexOfItem_def)

lemma value_writeSelected:
  "modifiedItems_value (writeSelected v s) =
     elemPut (modifiedItems_value s) (selectedItemIndex s) v"
  by (simp add: modifiedItems_value_def writeSelected_def)

lemma elemAt_index: "i < length xs \<Longrightarrow> elemAt xs (Some (int i)) = Some (xs ! i)"
  by (simp add: elemAt_def)

lemma elemPut_index: "i < length xs \<Longrightarrow> elemPut xs (Some (int i)) v = xs[i := v]"
  by (simp add: elemPut_def)

lemma elemAt_minus1: "elemAt xs (Some (- 1)) = None"
  by (simp add: elemAt_def)

lemma exampleStore_value:
  "modifiedItems_value exampleStore = map modified examplePayload"
  by (simp add: exampleStore_def setCopyOfItems_def initSummaryStore_def useItemsStore_def
      modifiedItems_value_def Let_def)

lemma exampleStore_ids: "map itemId (modifiedItems_value exampleStore) = [1, 2, 3]"
  by (simp add: exampleStore_value examplePayload_def modified_def)

subsection \<open>Mutations on an id the registry does not hold\<close>

text \<open>
  C10: for every store and every \<open>iid\<close> that no item of the registry carries,
  \<open>changeItemFulfilled iid\<close> returns normally and leaves the array, the heap and the trace
  as they were; the only write is \<open>- 1\<close> to the ref \<open>selectedItemIndex\<close>. The lookup gave
  \<^verbatim>\<open>undefined\<close> and the guard skipped the writes. The score and comment mutations have no
  such guard: at the same store and id each throws a TypeError.
\<close>

theorem changeItemFulfilled_missing:
  assumes "iid \<notin> set (map itemId (modifiedItems_value s))"
  shows "changeItemFulfilled iid s = Ok (s\<lparr>selectedItemIndex := Some (- 1)\<rparr>) \<and>
         modifiedItems_value (s\<lparr>selectedItemIndex := Some (- 1)\<rparr>) = modifiedItems_value s \<and>
         updateScoreOfItem sc iid s = Throw TypeError (s\<lparr>selectedItemIndex := Some (- 1)\<rparr>) \<and>
         updateCommentOfItem c iid s = Throw TypeError (s\<lparr>selectedItemIndex := Some (- 1)\<rparr>)"
proof -
  from assms have "findIndexOfItem iid s = s\<lparr>selectedItemIndex := Some (- 1)\<rparr>"
    by (simp add: findIndexOfItem_def findIndex_absent)
  then show ?thesis
    by (simp add: changeItemFulfilled_def updateScoreOfItem_def updateCommentOfItem_def
        elemAt_minus1 modifiedItems_value_def)
qed

theorem changeItemFulfilled_missing_witness:
  "4 \<notin> set (map itemId (modifiedItems_value exampleStore)) \<and>
   changeItemFulfilled 4 exampleStore = Ok (exampleStore\<lparr>selectedItemIndex := Some (- 1)\<rparr>) \<and>
   modifiedItems_value (exampleStore\<lparr>selectedItemIndex := Some (- 1)\<rparr>) =
     modifiedItems_value exampleStore"
proof -
  have h: "4 \<notin> set (map itemId (modifiedItems_value exampleStore))"
    by (simp add: exampleStore_ids)
  from h changeItemFulfilled_missing [OF h, of "Num 5" "''x''"] show ?thesis by simp
qed

text \<open>
  C1: the claim is that \<open>updateScoreOfItem\<close> on an id the registry does not hold returns
  silently with the registry unchanged. The registry is unchanged, but the call does not
  return: for every store and every such id it throws a TypeError, after writing \<open>- 1\<close>
  to \<open>selectedItemIndex\<close>.
\<close>

theorem updateScoreOfItem_missing:
  assumes "iid \<notin> set (map itemId (modifiedItems_value s))"
  shows "updateScoreOfItem sc iid s = Throw TypeError (s\<lparr>selectedItemIndex := Some (- 1)\<rparr>) \<and>
         modifiedItems_value (s\<lparr>selectedItemIndex := Some (- 1)\<rparr>) = modifiedItems_value s"
proof -
  from assms have "findIndexOfItem iid s = s\<lparr>selectedItemIndex := Some (- 1)\<rparr>"
    by (simp add: findIndexOfItem_def findIndex_absent)
  then show ?thesis
    by (simp add: updateScoreOfItem_def elemAt_minus1 modifiedItems_value_def)
qed

theorem updateScoreOfItem_missing_witness:
  "4 \<notin> set (map itemId (modifiedItems_value exampleStore)) \<and>
   updateScoreOfItem (Num 5) 4 exampleStore =
     Throw TypeError (exampleStore\<lparr>selectedItemIndex := Some (- 1)\<rparr>)"
proof -
  have h: "4 \<notin> set (map itemId (modifiedItems_value exampleStore))"
    by (simp add: exampleStore_ids)
  from h updateScoreOfItem_missing [OF h, of "Num 5"] show ?thesis by simp
qed

subsection \<open>Mutations on an id the registry holds\<close>

text \<open>
  C4: for every store and every \<open>iid\<close> that some item of the registry carries,
  \<open>changeItemFulfilled iid\<close> returns normally; the item written is the first one with that
  id (index \<open>i\<close>); its \<open>fulfilled\<close> is negated and its \<open>score\<close> is \<open>None\<close> afterwards,
  whatever both were before; the other positions keep their items.
\<close>

theorem changeItemFulfilled_present:
  assumes "iid \<in> set (map itemId (modifiedItems_value s))"
  shows "\<exists>i s'. i < length (modifiedItems_value s) \<and>
           itemId (modifiedItems_value s ! i) = iid \<and>
           (\<forall>j<i. itemId (modifiedItems_value s ! j) \<noteq> iid) \<and>
           changeItemFulfilled iid s = Ok s' \<and>
           modifiedItems s' = modifiedItems s \<and>
           modifiedItems_value s' =
             (modifiedItems_value s)[i := (modifiedItems_value s ! i)
                \<lparr>fulfilled := \<not> fulfilled (modifiedItems_value s ! i), score := None\<rparr>] \<and>
           fulfilled (modifiedItems_value s' ! i) = (\<not> fulfilled (modifiedItems_value s ! i)) \<and>
           score (modifiedItems_value s' ! i) = None"
proof -
  let ?xs = "modifiedItems_value s"
  from findIndex_present [OF assms] obtain i where
    i: "i < length ?xs" "itemId (?xs ! i) = iid" "\<forall>j<i. itemId (?xs ! j) \<noteq> iid"
    and f: "findIndex (\<lambda>item. itemId item = iid) ?xs = int i"
    by blast
  let ?s1 = "s\<lparr>selectedItemIndex := Some (int i)\<rparr>"
  let ?v = "(?xs ! i)\<lparr>fulfilled := \<not> fulfilled (?xs ! i), score := None\<rparr>"
  have s1: "findIndexOfItem iid s = ?s1"
    by (simp add: findIndexOfItem_def f)
  have v1: "modifiedItems_value ?s1 = ?xs"
    by (simp add: modifiedItems_value_def)
  have r: "changeItemFulfilled iid s = Ok (writeSelected ?v ?s1)"
    by (simp add: changeItemFulfilled_def s1 v1 elemAt_index i(1))
  have w: "modifiedItems_value (writeSelected ?v ?s1) = ?xs[i := ?v]"
    by (simp add: value_writeSelected v1 elemPut_index i(1))
  have m: "modifiedItems (writeSelected ?v ?s1) = modifiedItems s"
    by (simp add: writeSelected_def)
  from i r w m show ?thesis by (intro exI [of _ i] exI [of _ "writeSelected ?v ?s1"]) simp
qed

theorem changeItemFulfilled_present_witness:
  "3 \<in> set (map itemId (modifiedItems_value exampleStore)) \<and>
   (\<exists>s'. changeItemFulfilled 3 exampleStore = Ok s' \<and>
         map fulfilled (modifiedItems_value s') = [True, True, False] \<and>
         map score (modifiedItems_value s') = [None, None, None])"
proof -
  have h: "3 \<in> set (map itemId (modifiedItems_value exampleStore))"
    by (simp add: exampleStore_ids)
  from changeItemFulfilled_present [OF h] obtain i s' where
    i: "i < length (modifiedItems_value exampleStore)"
       "itemId (modifiedItems_value exampleStore ! i) = 3"
    and r: "changeItemFulfilled 3 exampleStore = Ok s'"
       "modifiedItems_value s' =
          (modifiedItems_value exampleStore)[i := (modifiedItems_value exampleStore ! i)
             \<lparr>fulfilled := \<not> fulfilled (modifiedItems_value exampleStore ! i), score := None\<rparr>]"
    by blast
  from i have "i = 2"
    by (auto simp: exampleStore_value examplePayload_def modified_def less_Suc_eq
        numeral_3_eq_3)
  with r have "map fulfilled (modifiedItems_value s') = [True, True, False]"
    "map score (modifiedItems_value s') = [None, None, None]"
    by (simp_all add: exampleStore_value examplePayload_def modified_def)
  with h r(1) show ?thesis by simp
qed

text \<open>
  C8: for every store and every \<open>iid\<close> that some item of the registry carries,
  \<open>updateScoreOfItem sc iid\<close> returns normally and the array afterwards is the array
  before with the \<open>score\<close> of the first item with that id set to \<open>sc\<close>: its \<open>fulfilled\<close>
  and \<open>comment\<close> and every other item are as before. \<open>updateCommentOfItem c iid\<close> does the
  same with \<open>comment\<close>, leaving \<open>score\<close> and \<open>fulfilled\<close>.
\<close>

theorem update_present_frame:
  assumes "iid \<in> set (map itemId (modifiedItems_value s))"
  shows "\<exists>i s1 s2. i < length (modifiedItems_value s) \<and>
           itemId (modifiedItems_value s ! i) = iid \<and>
           (\<forall>j<i. itemId (modifiedItems_value s ! j) \<noteq> iid) \<and>
           updateScoreOfItem sc iid s = Ok s1 \<and>
           modifiedItems s1 = modifiedItems s \<and>
           modifiedItems_value s1 =
             (modifiedItems_value s)[i := (modifiedItems_value s ! i)\<lparr>score := Some sc\<rparr>] \<and>
           fulfilled (modifiedItems_value s1 ! i) = fulfilled (modifiedItems_value s ! i) \<and>
           comment (modifiedItems_value s1 ! i) = comment (modifiedItems_value s ! i) \<and>
           (\<forall>j. j \<noteq> i \<longrightarrow> modifiedItems_value s1 ! j = modifiedItems_value s ! j) \<and>
           updateCommentOfItem c iid s = Ok s2 \<and>
           modifiedItems s2 = modifiedItems s \<and>
           modifiedItems_value s2 =
             (modifiedItems_value s)[i := (modifiedItems_value s ! i)\<lparr>comment := Some c\<rparr>] \<and>
           fulfilled (modifiedItems_value s2 ! i) = fulfilled (modifiedItems_value s ! i) \<and>
           score (modifiedItems_value s2 ! i) = score (modifiedItems_value s ! i) \<and>
           (\<forall>j. j \<noteq> i \<longrightarrow> modifiedItems_value s2 ! j = modifiedItems_value s ! j)"
proof -
  let ?xs = "modifiedItems_value s"
  from findIndex_present [OF assms] obtain i where
    i: "i < length ?xs" "itemId (?xs ! i) = iid" "\<forall>j<i. itemId (?xs ! j) \<noteq> iid"
    and f: "findIndex (\<lambda>item. itemId item = iid) ?xs = int i"
    by blast
  let ?s0 = "s\<lparr>selectedItemIndex := Some (int i)\<rparr>"
  let ?v1 = "(?xs ! i)\<lparr>score := Some sc\<rparr>"
  let ?v2 = "(?xs ! i)\<lparr>comment := Some c\<rparr>"
  have s0: "findIndexOfItem iid s = ?s0"
    by (simp add: findIndexOfItem_def f)
  have v0: "modifiedItems_value ?s0 = ?xs"
    by (simp add: modifiedItems_value_def)
  have r1: "updateScoreOfItem sc iid s = Ok (writeSelected ?v1 ?s0)"
    by (simp add: updateScoreOfItem_def s0 v0 elemAt_index i(1))
  have r2: "updateCommentOfItem c iid s = Ok (writeSelected ?v2 ?s0)"
    by (simp add: updateCommentOfItem_def s0 v0 elemAt_index i(1))
  have w1: "modifiedItems_value (writeSelected ?v1 ?s0) = ?xs[i := ?v1]"
    by (simp add: value_writeSelected v0 elemPut_index i(1))
  have w2: "modifiedItems_value (writeSelected ?v2 ?s0) = ?xs[i := ?v2]"
    by (simp add: value_writeSelected v0 elemPut_index i(1))
  have m: "modifiedItems (writeSelected ?v1 ?s0) = modifiedItems s"
    "modifiedItems (writeSelected ?v2 ?s0) = modifiedItems s"
    by (simp_all add: writeSelected_def)
  from i r1 r2 w1 w2 m show ?thesis
    by (intro exI [of _ i] exI [of _ "writeSelected ?v1 ?s0"] exI [of _ "writeSelected ?v2 ?s0"])
      simp
qed

theorem update_present_frame_witness:
  "2 \<in> set (map itemId (modifiedItems_value exampleStore)) \<and>
   (\<exists>s1 s2. updateScoreOfItem (Num 5) 2 exampleStore = Ok s1 \<and>
         map score (modifiedItems_value s1) = [None, Some (Num 5), None] \<and>
         map comment (modifiedItems_value s1) = [None, None, None] \<and>
         map fulfilled (modifiedItems_value s1) = [True, True, True] \<and>
         updateCommentOfItem ''fine'' 2 exampleStore = Ok s2 \<and>
         map comment (modifiedItems_value s2) = [None, Some ''fine'', None] \<and>
         map score (modifiedItems_value s2) = [None, None, None] \<and>
         map fulfilled (modifiedItems_value s2) = [True, True, True])"
proof -
  have h: "2 \<in> set (map itemId (modifiedItems_value exampleStore))"
    by (simp add: exampleStore_ids)
  from update_present_frame [OF h, of "Num 5" "''fine''"] obtain i s1 s2 where
    i: "i < length (modifiedItems_value exampleStore)"
       "itemId (modifiedItems_value exampleStore ! i) = 2"
    and r1: "updateScoreOfItem (Num 5) 2 exampleStore = Ok s1"
       "modifiedItems_value s1 =
          (modifiedItems_value exampleStore)[i := (modifiedItems_value exampleStore ! i)
             \<lparr>score := Some (Num 5)\<rparr>]"
    and r2: "updateCommentOfItem ''fine'' 2 exampleStore = Ok s2"
       "modifiedItems_value s2 =
          (modifiedItems_value exampleStore)[i := (modifiedItems_value exampleStore ! i)
             \<lparr>comment := Some ''fine''\<rparr>]"
    by blast
  from i have "i = 1"
    by (auto simp: exampleStore_value examplePayload_def modified_def less_Suc_eq
        numeral_3_eq_3)
  with r1 r2 have
    "map score (modifiedItems_value s1) = [None, Some (Num 5), None]"
    "map comment (modifiedItems_value s1) = [None, None, None]"
    "map fulfilled (modifiedItems_value s1) = [True, True, True]"
    "map comment (modifiedItems_value s2) = [None, Some ''fine'', None]"
    "map score (modifiedItems_value s2) = [None, None, None]"
    "map fulfilled (modifiedItems_value s2) = [True, True, True]"
    by (simp_all add: exampleStore_value examplePayload_def modified_def)
  with h r1(1) r2(1) show ?thesis by simp
qed

subsection \<open>Loading\<close>

text \<open>
  C5: for every list \<open>payload\<close> and every store, after \<open>setCopyOfItems payload\<close> the
  registry is a new array (at the address that was free) holding one item per element
  of \<open>payload\<close>, in the same order: the item at position \<open>i\<close> has the \<open>itemId\<close>,
  \<open>topicKey\<close>, \<open>topicTitle\<close> and other raw fields of \<open>payload ! i\<close>, \<open>score\<close> and
  \<open>comment\<close> absent and \<open>fulfilled\<close> true. The arrays that existed before are not
  written. The trace of \<^verbatim>\<open>initSummaryStore\<close> grows by exactly one call, and its argument
  is the address the registry holds: the same array, not a copy.
\<close>

lemma value_setCopyOfItems:
  "modifiedItems_value (setCopyOfItems payload s) = map modified payload"
  by (simp add: setCopyOfItems_def initSummaryStore_def modifiedItems_value_def Let_def)

theorem setCopyOfItems_load:
  "modifiedItems_value (setCopyOfItems payload s) = map modified payload \<and>
   length (modifiedItems_value (setCopyOfItems payload s)) = length payload \<and>
   (\<forall>i<length payload.
      itemId (modifiedItems_value (setCopyOfItems payload s) ! i) = itemId (payload ! i) \<and>
      topicKey (modifiedItems_value (setCopyOfItems payload s) ! i) = topicKey (payload ! i) \<and>
      topicTitle (modifiedItems_value (setCopyOfItems payload s) ! i) = topicTitle (payload ! i) \<and>
      display (modifiedItems_value (setCopyOfItems payload s) ! i) = display (payload ! i) \<and>
      score (modifiedItems_value (setCopyOfItems payload s) ! i) = None \<and>
      comment (modifiedItems_value (setCopyOfItems payload s) ! i) = None \<and>
      fulfilled (modifiedItems_value (setCopyOfItems payload s) ! i) = True) \<and>
   modifiedItems (setCopyOfItems payload s) = nextAddr s \<and>
   (\<forall>a. a \<noteq> nextAddr s \<longrightarrow> heap (setCopyOfItems payload s) a = heap s a) \<and>
   summaryCalls (setCopyOfItems payload s) =
     summaryCalls s @ [modifiedItems (setCopyOfItems payload s)]"
  by (simp add: value_setCopyOfItems)
    (simp add: setCopyOfItems_def initSummaryStore_def modified_def Let_def)

theorem setCopyOfItems_load_witness:
  "map itemId (modifiedItems_value exampleStore) = [1, 2, 3] \<and>
   map topicKey (modifiedItems_value exampleStore) = [''A'', ''A'', ''B''] \<and>
   map score (modifiedItems_value exampleStore) = [None, None, None] \<and>
   map comment (modifiedItems_value exampleStore) = [None, None, None] \<and>
   map fulfilled (modifiedItems_value exampleStore) = [True, True, True] \<and>
   summaryCalls exampleStore = [modifiedItems exampleStore]"
  using setCopyOfItems_load [of examplePayload useItemsStore]
  by (simp add: exampleStore_def examplePayload_def modified_def useItemsStore_def)

subsection \<open>Counting\<close>

lemma foldl_count:
  "foldl (\<lambda>acc x. if P x then acc + 1 else acc) (n::nat) xs = n + length (filter P xs)"
  by (induction xs arbitrary: n) simp_all

lemma getNumberOfItemsPerTopic_filter:
  "getNumberOfItemsPerTopic s k =
     length (filter (\<lambda>item. topicKey item = k) (modifiedItems_value s))"
  by (simp add: getNumberOfItemsPerTopic_def foldl_count)

lemma getNumberOfAnsweredItemsPerTopic_filter:
  "getNumberOfAnsweredItemsPerTopic s k =
     length (filter (\<lambda>item. topicKey item = k \<and> (score item \<noteq> None \<or> \<not> fulfilled item))
               (modifiedItems_value s))"
  by (simp add: getNumberOfAnsweredItemsPerTopic_def foldl_count)

lemma length_filter_split:
  "length (filter (\<lambda>x. P x \<and> (Q x \<or> R x)) xs) =
     length (filter (\<lambda>x. P x \<and> Q x) xs) + length (filter (\<lambda>x. P x \<and> \<not> Q x \<and> R x) xs)"
  by (induction xs) auto

lemma exampleAnswered_value:
  "\<exists>s. exampleAnswered = Ok s \<and>
       modifiedItems_value s =
         [\<lparr>itemId = 1, topicKey = ''A'', topicTitle = ''Topic A'', display = (),
            score = Some (Num 5), comment = None, fulfilled = True\<rparr>,
          \<lparr>itemId = 2, topicKey = ''A'', topicTitle = ''Topic A'', display = (),
            score = Some (Num 3), comment = None, fulfilled = True\<rparr>,
          \<lparr>itemId = 3, topicKey = ''B'', topicTitle = ''Topic B'', display = (),
            score = None, comment = None, fulfilled = False\<rparr>]"
  by (simp add: exampleAnswered_def exampleStore_def setCopyOfItems_def initSummaryStore_def
      useItemsStore_def examplePayload_def modified_def updateScoreOfItem_def
      changeItemFulfilled_def findIndexOfItem_def findIndex_def modifiedItems_value_def
      elemAt_def elemPut_def writeSelected_def Let_def)

lemma storeOf_exampleAnswered:
  "modifiedItems_value (storeOf exampleAnswered) =
         [\<lparr>itemId = 1, topicKey = ''A'', topicTitle = ''Topic A'', display = (),
            score = Some (Num 5), comment = None, fulfilled = True\<rparr>,
          \<lparr>itemId = 2, topicKey = ''A'', topicTitle = ''Topic A'', display = (),
            score = Some (Num 3), comment = None, fulfilled = True\<rparr>,
          \<lparr>itemId = 3, topicKey = ''B'', topicTitle = ''Topic B'', display = (),
            score = None, comment = None, fulfilled = False\<rparr>]"
proof -
  from exampleAnswered_value obtain s where s: "exampleAnswered = Ok s" and
    v: "modifiedItems_value s =
         [\<lparr>itemId = 1, topicKey = ''A'', topicTitle = ''Topic A'', display = (),
            score = Some (Num 5), comment = None, fulfilled = True\<rparr>,
          \<lparr>itemId = 2, topicKey = ''A'', topicTitle = ''Topic A'', display = (),
            score = Some (Num 3), comment = None, fulfilled = True\<rparr>,
          \<lparr>itemId = 3, topicKey = ''B'', topicTitle = ''Topic B'', display = (),
            score = None, comment = None, fulfilled = False\<rparr>]"
    by blast
  have "storeOf exampleAnswered = s" unfolding s by simp
  with v show ?thesis by simp
qed

text \<open>
  C7: for every store and every topic key \<open>k\<close>, \<open>getNumberOfAnsweredItemsPerTopic s k\<close> is
  the number of items whose \<open>topicKey\<close> is \<open>k\<close> and whose \<open>score\<close> is present or whose
  \<open>fulfilled\<close> is false. It is the number of items of the topic with a score plus
  the number of items of the topic without a score and not fulfilled: these count as
  answered.
\<close>

theorem getNumberOfAnsweredItemsPerTopic_counts:
  "getNumberOfAnsweredItemsPerTopic s k =
     length (filter (\<lambda>item. topicKey item = k \<and> (score item \<noteq> None \<or> fulfilled item = False))
               (modifiedItems_value s)) \<and>
   getNumberOfAnsweredItemsPerTopic s k =
     length (filter (\<lambda>item. topicKey item = k \<and> score item \<noteq> None) (modifiedItems_value s)) +
     length (filter (\<lambda>item. topicKey item = k \<and> score item = None \<and> fulfilled item = False)
               (modifiedItems_value s))"
proof -
  have "length (filter (\<lambda>item. topicKey item = k \<and> (score item \<noteq> None \<or> \<not> fulfilled item))
               (modifiedItems_value s)) =
     length (filter (\<lambda>item. topicKey item = k \<and> score item \<noteq> None) (modifiedItems_value s)) +
     length (filter (\<lambda>item. topicKey item = k \<and> \<not> score item \<noteq> None \<and> \<not> fulfilled item)
               (modifiedItems_value s))"
    by (rule length_filter_split)
  then show ?thesis
    by (simp add: getNumberOfAnsweredItemsPerTopic_filter)
qed

theorem getNumberOfAnsweredItemsPerTopic_counts_witness:
  "getNumberOfAnsweredItemsPerTopic (storeOf exampleAnswered) ''A'' = 2 \<and>
   getNumberOfAnsweredItemsPerTopic (storeOf exampleAnswered) ''B'' = 1"
  using getNumberOfAnsweredItemsPerTopic_counts [of "storeOf exampleAnswered" "''A''"]
    getNumberOfAnsweredItemsPerTopic_counts [of "storeOf exampleAnswered" "''B''"]
  by (simp add: storeOf_exampleAnswered)

subsection \<open>Topic keys\<close>

lemma newSet_snoc: "newSet (xs @ [x]) = setAdd (newSet xs) x"
  by (simp add: newSet_def)

lemma newSet_Nil: "newSet [] = []"
  by (simp add: newSet_def)

lemma set_newSet: "set (newSet xs) = set xs"
  by (induction xs rule: rev_induct) (auto simp: newSet_Nil newSet_snoc setAdd_def)

lemma distinct_newSet: "distinct (newSet xs)"
  by (induction xs rule: rev_induct) (auto simp: newSet_Nil newSet_snoc setAdd_def)

lemma findIndexFrom_append:
  "findIndexFrom P (xs @ ys) n =
     (if list_ex P xs then findIndexFrom P xs n else findIndexFrom P ys (n + int (length xs)))"
  by (induction xs arbitrary: n) (auto simp: algebra_simps)

lemma findIndex_snoc_old:
  "k \<in> set xs \<Longrightarrow> findIndex (\<lambda>y. y = k) (xs @ [x]) = findIndex (\<lambda>y. y = k) xs"
  by (auto simp: findIndex_def findIndexFrom_append list_ex_iff)

lemma findIndex_snoc_new:
  "x \<notin> set xs \<Longrightarrow> findIndex (\<lambda>y. y = x) (xs @ [x]) = int (length xs)"
  by (auto simp: findIndex_def findIndexFrom_append list_ex_iff)

lemma findIndex_bound:
  "k \<in> set xs \<Longrightarrow> findIndex (\<lambda>y. y = k) xs < int (length xs)"
  using findIndexFrom_some [of "\<lambda>y. y = k" xs 0]
  by (auto simp: findIndex_def list_ex_iff)

lemma first_order_newSet:
  "sorted_wrt (<) (map (\<lambda>k. findIndex (\<lambda>y. y = k) xs) (newSet xs))"
proof (induction xs rule: rev_induct)
  case Nil
  then show ?case by (simp add: newSet_Nil)
next
  case (snoc x xs)
  have old: "map (\<lambda>k. findIndex (\<lambda>y. y = k) (xs @ [x])) (newSet xs) =
             map (\<lambda>k. findIndex (\<lambda>y. y = k) xs) (newSet xs)"
    by (rule map_cong) (simp_all add: set_newSet findIndex_snoc_old)
  show ?case
  proof (cases "x \<in> set xs")
    case True
    then show ?thesis
      using snoc.IH by (simp add: newSet_snoc setAdd_def set_newSet old)
  next
    case False
    then show ?thesis
      using snoc.IH
      by (auto simp: newSet_snoc setAdd_def set_newSet old sorted_wrt_append
          findIndex_snoc_new findIndex_bound)
  qed
qed

lemma findIndexFrom_map:
  "findIndexFrom P (map f xs) n = findIndexFrom (\<lambda>x. P (f x)) xs n"
  by (induction xs arbitrary: n) simp_all


lemma topicKey_modified: "map topicKey (map modified payload) = map topicKey payload"
  by (simp add: modified_def)

text \<open>
  C3: for every list \<open>L\<close> and every store, after \<open>setCopyOfItems L\<close> the list
  \<open>itemTopicKeys\<close> has no duplicates, has exactly the topic keys that occur in \<open>L\<close>, and
  is ordered by the index of the first item of \<open>L\<close> with each key (\<open>findIndex\<close> on \<open>L\<close>
  increases strictly along it). This determines the list; no other order is applied.
\<close>

theorem itemTopicKeys_after_load:
  "distinct (itemTopicKeys (setCopyOfItems L s)) \<and>
   set (itemTopicKeys (setCopyOfItems L s)) = set (map topicKey L) \<and>
   sorted_wrt (<) (map (\<lambda>k. findIndex (\<lambda>item. topicKey item = k) L)
                     (itemTopicKeys (setCopyOfItems L s)))"
proof -
  have k: "itemTopicKeys (setCopyOfItems L s) = newSet (map topicKey L)"
    by (simp add: itemTopicKeys_def value_setCopyOfItems topicKey_modified del: map_map)
  have f: "\<And>k. findIndex (\<lambda>item. topicKey item = k) L = findIndex (\<lambda>y. y = k) (map topicKey L)"
    by (simp add: findIndex_def findIndexFrom_map)
  show ?thesis
    unfolding k f
    by (intro conjI distinct_newSet set_newSet first_order_newSet)
qed

theorem itemTopicKeys_after_load_witness:
  "distinct (itemTopicKeys exampleStore) \<and> set (itemTopicKeys exampleStore) = {''A'', ''B''}"
  using itemTopicKeys_after_load [of examplePayload useItemsStore]
  by (simp add: exampleStore_def examplePayload_def)

text \<open>
  C6: for every store, \<open>getNumberOfItemsPerTopic s k\<close> summed over the keys \<open>k\<close> of
  \<open>itemTopicKeys s\<close> is the number of items in the registry.
\<close>

theorem getNumberOfItemsPerTopic_sum:
  "sum_list (map (getNumberOfItemsPerTopic s) (itemTopicKeys s)) =
     length (modifiedItems_value s)"
proof -
  let ?ks = "map topicKey (modifiedItems_value s)"
  have c: "getNumberOfItemsPerTopic s k = count_list ?ks k" for k
    by (simp add: getNumberOfItemsPerTopic_filter count_list_eq_length_filter
        length_filter_map comp_def eq_commute)
  have "sum_list (map (getNumberOfItemsPerTopic s) (itemTopicKeys s)) =
        sum_list (map (count_list ?ks) (newSet ?ks))"
    by (simp add: c itemTopicKeys_def cong: map_cong)
  also have "\<dots> = sum (count_list ?ks) (set (newSet ?ks))"
    by (rule sum_list_distinct_conv_sum_set) (rule distinct_newSet)
  also have "\<dots> = length ?ks"
    by (simp add: set_newSet sum_count_set)
  finally show ?thesis by simp
qed

theorem getNumberOfItemsPerTopic_sum_witness:
  "sum_list (map (getNumberOfItemsPerTopic exampleStore) (itemTopicKeys exampleStore)) = 3"
  using getNumberOfItemsPerTopic_sum [of exampleStore]
  by (simp add: exampleStore_value examplePayload_def)

subsection \<open>Progress\<close>

lemma itemTopicKeys_set: "set (itemTopicKeys s) = set (map topicKey (modifiedItems_value s))"
  by (simp add: itemTopicKeys_def set_newSet)

lemma getNumberOfItemsPerTopic_pos:
  assumes "k \<in> set (itemTopicKeys s)"
  shows "0 < getNumberOfItemsPerTopic s k"
proof -
  from assms obtain item where "item \<in> set (modifiedItems_value s)" "topicKey item = k"
    by (auto simp: itemTopicKeys_set)
  then have "filter (\<lambda>item. topicKey item = k) (modifiedItems_value s) \<noteq> []"
    by (auto simp: filter_empty_conv)
  then show ?thesis
    by (simp add: getNumberOfItemsPerTopic_filter)
qed

lemma totalProgress_keys: "map pTopicKey (totalProgress gp s) = itemTopicKeys s"
proof -
  have "map pTopicKey (totalProgress gp s) = map snd (enumerate 0 (itemTopicKeys s))"
    by (simp add: totalProgress_def Let_def split_def comp_def)
  then show ?thesis by simp
qed

lemma totalProgress_entry:
  assumes "e \<in> set (totalProgress gp s)"
  shows "pTopicKey e \<in> set (itemTopicKeys s) \<and>
         progressPercent e =
           getProgressPercent (getNumberOfAnsweredItemsPerTopic s (pTopicKey e))
             (getNumberOfItemsPerTopic s (pTopicKey e))"
  using assms
  by (auto simp: totalProgress_def Let_def in_set_enumerate_eq)

lemma exampleStore_keys: "itemTopicKeys exampleStore = [''A'', ''B'']"
  by (simp add: itemTopicKeys_def exampleStore_value examplePayload_def modified_def
      newSet_def setAdd_def)

text \<open>
  C9: for every store and every \<^verbatim>\<open>getProgress\<close>, \<open>totalProgress\<close> makes one entry per key
  of \<open>itemTopicKeys\<close>, in that order; every such key has at least one item; so each call
  of \<open>getProgressPercent\<close> made for an entry receives a total above zero, and no entry
  has \<^verbatim>\<open>NaN\<close> or \<^verbatim>\<open>Infinity\<close> as its \<open>progressPercent\<close>.
\<close>

theorem totalProgress_total_positive:
  "map pTopicKey (totalProgress gp s) = itemTopicKeys s \<and>
   (\<forall>k \<in> set (itemTopicKeys s). 1 \<le> getNumberOfItemsPerTopic s k) \<and>
   (\<forall>e \<in> set (totalProgress gp s).
      progressPercent e =
        getProgressPercent (getNumberOfAnsweredItemsPerTopic s (pTopicKey e))
          (getNumberOfItemsPerTopic s (pTopicKey e)) \<and>
      0 < getNumberOfItemsPerTopic s (pTopicKey e) \<and>
      progressPercent e \<noteq> NaN \<and> progressPercent e \<noteq> Infinity)"
proof (intro conjI ballI)
  show "map pTopicKey (totalProgress gp s) = itemTopicKeys s"
    by (rule totalProgress_keys)
next
  fix k assume "k \<in> set (itemTopicKeys s)"
  from getNumberOfItemsPerTopic_pos [OF this]
  show "1 \<le> getNumberOfItemsPerTopic s k" by simp
next
  fix e assume e: "e \<in> set (totalProgress gp s)"
  note t = totalProgress_entry [OF e]
  from t show "progressPercent e =
        getProgressPercent (getNumberOfAnsweredItemsPerTopic s (pTopicKey e))
          (getNumberOfItemsPerTopic s (pTopicKey e))" by simp
  from t getNumberOfItemsPerTopic_pos
  show p: "0 < getNumberOfItemsPerTopic s (pTopicKey e)" by blast
  from t p show "progressPercent e \<noteq> NaN" "progressPercent e \<noteq> Infinity"
    by (simp_all add: getProgressPercent_def)
qed

theorem totalProgress_total_positive_witness:
  "map pTopicKey (totalProgress exampleGetProgress exampleStore) = [''A'', ''B''] \<and>
   1 \<le> getNumberOfItemsPerTopic exampleStore ''A'' \<and>
   1 \<le> getNumberOfItemsPerTopic exampleStore ''B'' \<and>
   list_all (\<lambda>e. progressPercent e \<noteq> NaN \<and> progressPercent e \<noteq> Infinity)
     (totalProgress exampleGetProgress exampleStore)"
  using totalProgress_total_positive [of exampleGetProgress exampleStore]
  by (auto simp: exampleStore_keys list_all_iff)

subsection \<open>Binary64 rounding\<close>









subsection \<open>The percentage\<close>











subsection \<open>Completion\<close>

















end
